theory Spec2Isabelle
  imports Main
begin

section \<open>Strings\<close>

text \<open>
  A JavaScript string is a sequence of code units. The model uses \<^typ>\<open>string\<close>, so a code
  unit is one of the 256 values of \<^typ>\<open>char\<close> (U+0000 to U+00FF). The character tests
  below are the ECMAScript ones restricted to that range: white space (\<open>\s\<close> and
  \<open>trim\<close>) is TAB, LF, VT, FF, CR, SPACE and NBSP; a line terminator (\<open>.\<close>, \<open>^\<close>,
  \<open>$\<close>) is LF or CR.
\<close>

abbreviation nl :: char where
  "nl \<equiv> CHR 0x0A"

definition isWhiteSpace :: "char \<Rightarrow> bool" where
  "isWhiteSpace c =
     (c = CHR 0x09 \<or> c = CHR 0x0A \<or> c = CHR 0x0B \<or> c = CHR 0x0C \<or> c = CHR 0x0D \<or>
      c = CHR 0x20 \<or> c = CHR 0xA0)"

definition isLineTerminator :: "char \<Rightarrow> bool" where
  "isLineTerminator c = (c = CHR 0x0A \<or> c = CHR 0x0D)"

definition isDigit :: "char \<Rightarrow> bool" where
  "isDigit c = (c \<in> set ''0123456789'')"

text \<open>\<open>String.prototype.trim\<close>.\<close>

definition trim :: "string \<Rightarrow> string" where
  "trim s = rev (dropWhile isWhiteSpace (rev (dropWhile isWhiteSpace s)))"

text \<open>\<open>String.prototype.split\<close> with a one-character separator; \<open>''.split(c)\<close> is \<open>['']\<close>.\<close>

fun split_on :: "char \<Rightarrow> string \<Rightarrow> string list" where
  "split_on c [] = [[]]"
| "split_on c (x # xs) =
     (if x = c then [] # split_on c xs
      else (case split_on c xs of [] \<Rightarrow> [[x]] | y # ys \<Rightarrow> (x # y) # ys))"

text \<open>\<open>String.prototype.startsWith\<close>.\<close>

definition startsWith :: "string \<Rightarrow> string \<Rightarrow> bool" where
  "startsWith s p = (take (length p) s = p)"

section \<open>Regular expressions\<close>

text \<open>
  The patterns of the source are written as syntax trees and run by a backtracking matcher
  that follows the ECMAScript semantics: a matcher maps a state to the list of states in
  which it can end, in the order in which backtracking tries them, so the head of the list
  is the match that the engine reports. A state is a position in the subject string, kept
  as the text before it (reversed) and the text after it, and the value of capture group 1
  (no pattern of the source has a second group). Inside a lookbehind the pattern is
  matched backwards, as ECMAScript does.
\<close>

datatype dir = Fwd | Bwd

datatype mstate = MState (before: string) (after: string) (cap: "string option")

datatype catom = Lit char | Space | NonSpace | Digit

datatype regex =
    Eps
  | Ch char
  | Cls bool "catom list"
  | Dot
  | Seq regex regex
  | Star bool regex
  | Plus bool regex
  | Opt regex
  | Grp regex
  | Bol
  | Eol
  | NegAhead regex
  | NegBehind regex

text \<open>
  \<open>Ch c\<close> is the literal character \<open>c\<close>; \<open>Cls neg as\<close> is the class \<open>[as]\<close>, or
  \<open>[^as]\<close> when \<open>neg\<close> holds; \<open>Star g r\<close> is \<open>r*\<close> when \<open>g\<close> holds (greedy) and
  \<open>r*?\<close> otherwise, likewise \<open>Plus\<close>; \<open>Opt r\<close> is \<open>r?\<close>; \<open>Grp r\<close> is the capturing
  group \<open>(r)\<close>; \<open>Bol\<close> and \<open>Eol\<close> are \<open>^\<close> and \<open>$\<close>; \<open>NegAhead r\<close> is
  \<open>(?!r)\<close> and \<open>NegBehind r\<close> is \<open>(?<!r)\<close>.
\<close>

fun atom_ok :: "catom \<Rightarrow> char \<Rightarrow> bool" where
  "atom_ok (Lit x) c = (c = x)"
| "atom_ok Space c = isWhiteSpace c"
| "atom_ok NonSpace c = (\<not> isWhiteSpace c)"
| "atom_ok Digit c = isDigit c"

definition cls_ok :: "bool \<Rightarrow> catom list \<Rightarrow> char \<Rightarrow> bool" where
  "cls_ok neg as c = (list_ex (\<lambda>a. atom_ok a c) as \<noteq> neg)"

text \<open>One character, read in the direction of the match.\<close>

fun step :: "(char \<Rightarrow> bool) \<Rightarrow> dir \<Rightarrow> mstate \<Rightarrow> mstate list" where
  "step P Fwd (MState b [] g) = []"
| "step P Fwd (MState b (c # a) g) = (if P c then [MState (c # b) a g] else [])"
| "step P Bwd (MState [] a g) = []"
| "step P Bwd (MState (c # b) a g) = (if P c then [MState b (c # a) g] else [])"

text \<open>The number of characters left in the direction of the match.\<close>

fun togo :: "dir \<Rightarrow> mstate \<Rightarrow> nat" where
  "togo Fwd st = length (after st)"
| "togo Bwd st = length (before st)"

text \<open>
  The repetition of a matcher \<open>m\<close>, zero or more times. An iteration that ends where it
  started is rejected (the empty check of ECMAScript's RepeatMatcher); since a matcher
  never moves against its direction, that is an iteration that leaves as many characters
  as it found. A greedy repetition tries one more iteration before it tries to stop, a
  lazy one the other way round.
\<close>

function iter :: "(mstate \<Rightarrow> mstate list) \<Rightarrow> bool \<Rightarrow> dir \<Rightarrow> mstate \<Rightarrow> mstate list" where
  "iter m greedy d st =
     (let more = concat (map (iter m greedy d) (filter (\<lambda>st'. togo d st' < togo d st) (m st)))
      in if greedy then more @ [st] else st # more)"
  by pat_completeness auto
termination
  by (relation "measure (\<lambda>(m, greedy, d, st). togo d st)") auto

declare iter.simps [simp del]

text \<open>The text that a group has matched between two states.\<close>

fun capture :: "dir \<Rightarrow> mstate \<Rightarrow> mstate \<Rightarrow> mstate" where
  "capture Fwd st (MState b a g) =
     MState b a (Some (rev (take (length b - length (before st)) b)))"
| "capture Bwd st (MState b a g) =
     MState b a (Some (take (length a - length (after st)) a))"

fun at_bol :: "bool \<Rightarrow> string \<Rightarrow> bool" where
  "at_bol ml [] = True"
| "at_bol ml (c # b) = (ml \<and> isLineTerminator c)"

text \<open>
  The matcher. \<open>ml\<close> is the \<open>m\<close> flag of the pattern. \<open>at_bol\<close> serves both anchors: the
  text before the position is read from the position backwards, the text after it
  forwards, and the test is the same on either side.
\<close>

fun rmatch :: "bool \<Rightarrow> regex \<Rightarrow> dir \<Rightarrow> mstate \<Rightarrow> mstate list" where
  "rmatch ml Eps d st = [st]"
| "rmatch ml (Ch c) d st = step (\<lambda>x. x = c) d st"
| "rmatch ml (Cls neg as) d st = step (cls_ok neg as) d st"
| "rmatch ml Dot d st = step (\<lambda>x. \<not> isLineTerminator x) d st"
| "rmatch ml (Seq r1 r2) Fwd st = concat (map (rmatch ml r2 Fwd) (rmatch ml r1 Fwd st))"
| "rmatch ml (Seq r1 r2) Bwd st = concat (map (rmatch ml r1 Bwd) (rmatch ml r2 Bwd st))"
| "rmatch ml (Star g r) d st = iter (rmatch ml r d) g d st"
| "rmatch ml (Plus g r) d st = concat (map (iter (rmatch ml r d) g d) (rmatch ml r d st))"
| "rmatch ml (Opt r) d st = filter (\<lambda>st'. togo d st' < togo d st) (rmatch ml r d st) @ [st]"
| "rmatch ml (Grp r) d st = map (capture d st) (rmatch ml r d st)"
| "rmatch ml Bol d st = (if at_bol ml (before st) then [st] else [])"
| "rmatch ml Eol d st = (if at_bol ml (after st) then [st] else [])"
| "rmatch ml (NegAhead r) d st = (if rmatch ml r Fwd st = [] then [st] else [])"
| "rmatch ml (NegBehind r) d st = (if rmatch ml r Bwd st = [] then [st] else [])"

text \<open>A sequence of patterns.\<close>

fun seqs :: "regex list \<Rightarrow> regex" where
  "seqs [] = Eps"
| "seqs [r] = r"
| "seqs (r # rs) = Seq r (seqs rs)"

subsection \<open>Searching\<close>

text \<open>
  A search with the \<open>g\<close> flag cuts the subject into the matches and the characters
  between them. It tries each position from the left; after a match it goes on where
  the match ended, or one character further when the match was empty.
\<close>

datatype chunk = Plain char | Match string "string option"

function gscan :: "bool \<Rightarrow> regex \<Rightarrow> string \<Rightarrow> string \<Rightarrow> chunk list" where
  "gscan ml r b a =
     (case rmatch ml r Fwd (MState b a None) of
        [] \<Rightarrow> (case a of [] \<Rightarrow> [] | c # cs \<Rightarrow> Plain c # gscan ml r (c # b) cs)
      | e # _ \<Rightarrow>
          Match (take (length a - length (after e)) a) (cap e) #
          (if length (after e) < length a then gscan ml r (before e) (after e)
           else (case a of [] \<Rightarrow> [] | c # cs \<Rightarrow> Plain c # gscan ml r (c # b) cs)))"
  by pat_completeness auto
termination
  by (relation "measure (\<lambda>(ml, r, b, a). length a)") auto

declare gscan.simps [simp del]

text \<open>
  The replacement text of a template: \<open>$1\<close> stands for group 1, \<open>$&\<close> for the match and
  \<open>$$\<close> for a dollar sign. The templates of the source use \<open>$1\<close> only.
\<close>

fun expand :: "string \<Rightarrow> string \<Rightarrow> string option \<Rightarrow> string" where
  "expand [] m g = []"
| "expand [c] m g = [c]"
| "expand (c # c' # t) m g =
     (if c = CHR ''$'' \<and> c' = CHR ''1'' then (case g of None \<Rightarrow> [] | Some x \<Rightarrow> x) @ expand t m g
      else if c = CHR ''$'' \<and> c' = CHR ''&'' then m @ expand t m g
      else if c = CHR ''$'' \<and> c' = CHR ''$'' then CHR ''$'' # expand t m g
      else c # expand (c' # t) m g)"

datatype error = TypeError

text \<open>\<open>s.replace(/r/g, template)\<close>.\<close>

definition replace_g :: "bool \<Rightarrow> regex \<Rightarrow> string \<Rightarrow> string \<Rightarrow> string" where
  "replace_g ml r tmpl s =
     concat (map (\<lambda>ch. case ch of Plain c \<Rightarrow> [c] | Match m g \<Rightarrow> expand tmpl m g)
       (gscan ml r [] s))"

text \<open>
  \<open>s.replace(/r/g, function)\<close>: the function is called on each match, from left to right;
  if a call throws, so does \<open>replace\<close>.
\<close>

fun build :: "(string \<Rightarrow> error + string) \<Rightarrow> chunk list \<Rightarrow> error + string" where
  "build f [] = Inr []"
| "build f (Plain c # chs) =
     (case build f chs of Inl e \<Rightarrow> Inl e | Inr t \<Rightarrow> Inr (c # t))"
| "build f (Match m g # chs) =
     (case f m of Inl e \<Rightarrow> Inl e
      | Inr x \<Rightarrow> (case build f chs of Inl e \<Rightarrow> Inl e | Inr t \<Rightarrow> Inr (x @ t)))"

definition replace_g_fn :: "bool \<Rightarrow> regex \<Rightarrow> (string \<Rightarrow> error + string) \<Rightarrow> string \<Rightarrow> error + string" where
  "replace_g_fn ml r f s = build f (gscan ml r [] s)"

text \<open>\<open>s.match(/r/g)\<close>: the matched texts, or \<open>null\<close> when there is none.\<close>

definition match_g :: "bool \<Rightarrow> regex \<Rightarrow> string \<Rightarrow> string list option" where
  "match_g ml r s =
     (case concat (map (\<lambda>ch. case ch of Plain c \<Rightarrow> [] | Match m g \<Rightarrow> [m]) (gscan ml r [] s)) of
        [] \<Rightarrow> None
      | ms \<Rightarrow> Some ms)"

text \<open>\<open>s.replace(/r/, template)\<close> without the \<open>g\<close> flag: the leftmost match only.\<close>

fun replace_from :: "bool \<Rightarrow> regex \<Rightarrow> string \<Rightarrow> string \<Rightarrow> string \<Rightarrow> string" where
  "replace_from ml r tmpl b [] =
     (case rmatch ml r Fwd (MState b [] None) of
        [] \<Rightarrow> rev b
      | e # _ \<Rightarrow> rev b @ expand tmpl [] (cap e) @ after e)"
| "replace_from ml r tmpl b (c # cs) =
     (case rmatch ml r Fwd (MState b (c # cs) None) of
        [] \<Rightarrow> replace_from ml r tmpl (c # b) cs
      | e # _ \<Rightarrow>
          rev b @ expand tmpl (take (length (c # cs) - length (after e)) (c # cs)) (cap e) @ after e)"

definition replace_first :: "bool \<Rightarrow> regex \<Rightarrow> string \<Rightarrow> string \<Rightarrow> string" where
  "replace_first ml r tmpl s = replace_from ml r tmpl [] s"

section \<open>formatMessage\<close>

subsection \<open>The patterns\<close>

abbreviation ws :: regex where
  "ws \<equiv> Cls False [Space]"

abbreviation notnl :: regex where
  "notnl \<equiv> Cls True [Lit nl]"

text \<open>\<^verbatim>\<open>/(\|[^\n]+\|\s*\n\|[-:|]+\|[^\n]+\|\s*(?:\n\|[^\n]+\|\s*)*)/g\<close>\<close>

definition tableRegex :: regex where
  "tableRegex =
     Grp (seqs [Ch CHR ''|'', Plus True notnl, Ch CHR ''|'', Star True ws, Ch nl,
                Ch CHR ''|'', Plus True (Cls False [Lit CHR ''-'', Lit CHR '':'', Lit CHR ''|'']),
                Ch CHR ''|'', Plus True notnl, Ch CHR ''|'', Star True ws,
                Star True (seqs [Ch nl, Ch CHR ''|'', Plus True notnl, Ch CHR ''|'', Star True ws])])"

text \<open>\<^verbatim>\<open>/\|([^|]*)/g\<close>\<close>

definition cellRegex :: regex where
  "cellRegex = Seq (Ch CHR ''|'') (Grp (Star True (Cls True [Lit CHR ''|''])))"

text \<open>\<^verbatim>\<open>/```([\s\S]*?)```/g\<close>\<close>

definition codeBlockRegex :: regex where
  "codeBlockRegex =
     seqs [Ch CHR ''`'', Ch CHR ''`'', Ch CHR ''`'', Grp (Star False (Cls False [Space, NonSpace])),
           Ch CHR ''`'', Ch CHR ''`'', Ch CHR ''`'']"

text \<open>\<^verbatim>\<open>/`([^`]+)`/g\<close>\<close>

definition inlineCodeRegex :: regex where
  "inlineCodeRegex =
     seqs [Ch CHR ''`'', Grp (Plus True (Cls True [Lit CHR ''`''])), Ch CHR ''`'']"

text \<open>\<^verbatim>\<open>/\*\*(.*?)\*\*/g\<close>\<close>

definition boldRegex :: regex where
  "boldRegex =
     seqs [Ch CHR ''*'', Ch CHR ''*'', Grp (Star False Dot), Ch CHR ''*'', Ch CHR ''*'']"

text \<open>\<^verbatim>\<open>/(?<!<[^>]*)\*(.*?)\*(?![^<]*>)/g\<close>\<close>

definition italicRegex :: regex where
  "italicRegex =
     seqs [NegBehind (Seq (Ch CHR ''<'') (Star True (Cls True [Lit CHR ''>'']))),
           Ch CHR ''*'', Grp (Star False Dot), Ch CHR ''*'',
           NegAhead (Seq (Star True (Cls True [Lit CHR ''<''])) (Ch CHR ''>''))]"

abbreviation bullet :: regex where
  "bullet \<equiv> Cls False [Lit CHR ''-'', Lit CHR ''*'']"

text \<open>\<^verbatim>\<open>/((?:^\s*[-*]\s+.+\n?)+)/gm\<close>\<close>

definition listRegex :: regex where
  "listRegex =
     Grp (Plus True (seqs [Bol, Star True ws, bullet, Plus True ws, Plus True Dot, Opt (Ch nl)]))"

text \<open>\<^verbatim>\<open>/^\s*[-*]\s+(.+)$/gm\<close>\<close>

definition listItemRegex :: regex where
  "listItemRegex = seqs [Bol, Star True ws, bullet, Plus True ws, Grp (Plus True Dot), Eol]"

text \<open>\<^verbatim>\<open>/^\s*[-*]\s+/\<close>\<close>

definition listMarkerRegex :: regex where
  "listMarkerRegex = seqs [Bol, Star True ws, bullet, Plus True ws]"

text \<open>\<^verbatim>\<open>/((?:^\s*\d+\.\s+.+\n?)+)/gm\<close>\<close>

definition orderedListRegex :: regex where
  "orderedListRegex =
     Grp (Plus True (seqs [Bol, Star True ws, Plus True (Cls False [Digit]), Ch CHR ''.'',
                           Plus True ws, Plus True Dot, Opt (Ch nl)]))"

text \<open>\<^verbatim>\<open>/^\s*\d+\.\s+(.+)$/gm\<close>\<close>

definition orderedItemRegex :: regex where
  "orderedItemRegex =
     seqs [Bol, Star True ws, Plus True (Cls False [Digit]), Ch CHR ''.'', Plus True ws,
           Grp (Plus True Dot), Eol]"

text \<open>\<^verbatim>\<open>/^\s*\d+\.\s+/\<close>\<close>

definition orderedMarkerRegex :: regex where
  "orderedMarkerRegex =
     seqs [Bol, Star True ws, Plus True (Cls False [Digit]), Ch CHR ''.'', Plus True ws]"

text \<open>\<^verbatim>\<open>/\n\s*\n/g\<close>\<close>

definition paragraphRegex :: regex where
  "paragraphRegex = seqs [Ch nl, Star True ws, Ch nl]"

text \<open>\<^verbatim>\<open>/\n/g\<close>\<close>

definition newlineRegex :: regex where
  "newlineRegex = Ch nl"

subsection \<open>Tables\<close>

text \<open>
  The body of the two \<open>forEach\<close> loops over the cells of a row, which differ in the tag
  only: the first match is skipped when it is a lone \<open>|\<close>; otherwise the first \<open>|\<close> of the
  match is removed (\<open>column.replace('|', '')\<close>) and the rest trimmed.
\<close>

definition cell :: "string \<Rightarrow> nat \<times> string \<Rightarrow> string" where
  "cell tag ic =
     (case ic of (index, column) \<Rightarrow>
        if index = 0 \<and> trim column = ''|'' then []
        else ''<'' @ tag @ ''>'' @ trim (remove1 CHR ''|'' column) @ ''</'' @ tag @ ''>'')"

definition row :: "string \<Rightarrow> string \<Rightarrow> string" where
  "row tag r =
     (case match_g False cellRegex r of
        None \<Rightarrow> []
      | Some rowMatch \<Rightarrow> ''<tr>'' @ concat (map (cell tag) (enumerate 0 rowMatch)) @ ''</tr>'')"

text \<open>
  The function passed to \<open>replace\<close> for a table. \<open>rows[0].match\<close> throws a TypeError when
  \<open>rows\<close> is empty.
\<close>

definition tableToHtml :: "string \<Rightarrow> error + string" where
  "tableToHtml table =
     (let rows = filter (\<lambda>r. length (trim r) > 0) (split_on nl table)
      in case rows of
           [] \<Rightarrow> Inl TypeError
         | row0 # _ \<Rightarrow>
             Inr (''<table class=\"table table-bordered table-dark table-sm\"><thead>'' @
                  row ''th'' row0 @
                  ''</thead><tbody>'' @
                  concat (map (row ''td'') (drop 2 rows)) @
                  ''</tbody></table>''))"

subsection \<open>Lists\<close>

definition listItem :: "regex \<Rightarrow> string \<Rightarrow> string" where
  "listItem marker item = ''<li>'' @ trim (replace_first False marker [] item) @ ''</li>''"

definition listToHtml :: "string \<Rightarrow> regex \<Rightarrow> regex \<Rightarrow> string \<Rightarrow> error + string" where
  "listToHtml tag itemRegex marker listBlock =
     Inr (''<'' @ tag @ ''>'' @
          (case match_g True itemRegex listBlock of
             None \<Rightarrow> []
           | Some items \<Rightarrow> concat (map (listItem marker) items)) @
          ''</'' @ tag @ ''>'')"

subsection \<open>The function\<close>

text \<open>The rewriting passes, in the order of the source.\<close>

definition passes :: "string \<Rightarrow> error + string" where
  "passes message =
     (case replace_g_fn False tableRegex tableToHtml message of
        Inl e \<Rightarrow> Inl e
      | Inr s1 \<Rightarrow>
     (let s2 = replace_g False codeBlockRegex ''<pre><code>$1</code></pre>'' s1;
          s3 = replace_g False inlineCodeRegex ''<code>$1</code>'' s2;
          s4 = replace_g False boldRegex ''<strong>$1</strong>'' s3;
          s5 = replace_g False italicRegex ''<em>$1</em>'' s4
      in case replace_g_fn True listRegex (listToHtml ''ul'' listItemRegex listMarkerRegex) s5 of
        Inl e \<Rightarrow> Inl e
      | Inr s6 \<Rightarrow>
     (case replace_g_fn True orderedListRegex
             (listToHtml ''ol'' orderedItemRegex orderedMarkerRegex) s6 of
        Inl e \<Rightarrow> Inl e
      | Inr s7 \<Rightarrow>
     (let s8 = replace_g False paragraphRegex ''</p><p>'' s7;
          s9 = replace_g False newlineRegex ''<br>'' s8
      in Inr s9))))"

definition wrap :: "string \<Rightarrow> string" where
  "wrap s = (if \<not> startsWith s ''<'' then ''<p>'' @ s @ ''</p>'' else s)"

text \<open>
  The argument is \<open>None\<close> for \<open>null\<close> or \<open>undefined\<close>. The result is \<open>Inl\<close> when the
  function throws.
\<close>

definition formatMessage :: "string option \<Rightarrow> error + string" where
  "formatMessage message =
     (case message of
        None \<Rightarrow> Inr []
      | Some m \<Rightarrow>
          if m = [] then Inr []
          else (case passes m of Inl e \<Rightarrow> Inl e | Inr s \<Rightarrow> Inr (wrap s)))"

section \<open>Notions used in the statements and proofs\<close>








text \<open>
  \<open>reach d st st'\<close>: the state \<open>st'\<close> lies at or beyond \<open>st\<close> in direction \<open>d\<close>, in the
  same subject string.
\<close>

definition reach :: "dir \<Rightarrow> mstate \<Rightarrow> mstate \<Rightarrow> bool" where
  "reach d st st' =
     (case d of
        Fwd \<Rightarrow> \<exists>cs. after st = cs @ after st' \<and> before st' = rev cs @ before st
      | Bwd \<Rightarrow> \<exists>cs. before st = cs @ before st' \<and> after st' = rev cs @ after st)"

text \<open>\<open>dead ml r S\<close>: the pattern \<open>r\<close> matches nowhere in a text made of characters of \<open>S\<close>.\<close>

definition dead :: "bool \<Rightarrow> regex \<Rightarrow> char set \<Rightarrow> bool" where
  "dead ml r S = (\<forall>st. set (after st) \<subseteq> S \<longrightarrow> rmatch ml r Fwd st = [])"

section \<open>Properties of the matcher\<close>

text \<open>A matcher stays in its subject string and never moves against its direction.\<close>

lemma reach_refl: "reach d st st"
  by (cases d) (simp_all add: reach_def)

lemma reach_trans: "reach d s1 s2 \<Longrightarrow> reach d s2 s3 \<Longrightarrow> reach d s1 s3"
  by (cases d) (auto simp: reach_def)

lemma reach_cap: "reach d st (MState b a g) \<Longrightarrow> reach d st (MState b a g')"
  by (cases d) (auto simp: reach_def)

lemma step_reach: "st' \<in> set (step P d st) \<Longrightarrow> reach d st st'"
  by (induction P d st rule: step.induct) (auto simp: reach_def split: if_splits)

lemma iter_cases:
  "st' \<in> set (iter m g d st) \<Longrightarrow>
     st' = st \<or> (\<exists>x \<in> set (m st). togo d x < togo d st \<and> st' \<in> set (iter m g d x))"
  by (subst (asm) iter.simps) (auto simp: Let_def split: if_splits)

lemma iter_reach:
  "(\<And>s s'. s' \<in> set (m s) \<Longrightarrow> reach d s s') \<Longrightarrow> st' \<in> set (iter m g d st) \<Longrightarrow> reach d st st'"
proof (induction m g d st arbitrary: st' rule: iter.induct)
  case (1 m greedy d st)
  from iter_cases [OF "1.prems"(2)] show ?case
  proof
    assume "st' = st"
    then show ?thesis by (simp add: reach_refl)
  next
    assume "\<exists>x \<in> set (m st). togo d x < togo d st \<and> st' \<in> set (iter m greedy d x)"
    then obtain x where x: "x \<in> set (m st)" "togo d x < togo d st" "st' \<in> set (iter m greedy d x)"
      by blast
    have "reach d x st'"
      using "1.IH" [of x st'] x "1.prems"(1) by simp
    moreover have "reach d st x"
      using "1.prems"(1) x(1) by blast
    ultimately show ?thesis
      using reach_trans by blast
  qed
qed

lemma capture_reach: "reach d st st' \<Longrightarrow> reach d st (capture d st0 st')"
  by (cases d; cases st') (auto intro: reach_cap)

lemma rmatch_reach: "st' \<in> set (rmatch ml r d st) \<Longrightarrow> reach d st st'"
proof (induction ml r d st arbitrary: st' rule: rmatch.induct)
  case (7 ml g r d st)
  then show ?case by (auto intro: iter_reach)
next
  case (8 ml g r d st)
  from "8.prems" obtain x where x: "x \<in> set (rmatch ml r d st)" "st' \<in> set (iter (rmatch ml r d) g d x)"
    by auto
  have "reach d st x"
    using "8.IH"(1) x(1) by blast
  moreover have "reach d x st'"
    using iter_reach [of "rmatch ml r d" d st' g x] "8.IH"(2) x by blast
  ultimately show ?case
    using reach_trans by blast
next
  case (10 ml r d st)
  then show ?case by (auto intro: capture_reach)
qed (auto intro: step_reach reach_refl reach_trans split: if_splits)


lemma reach_fwd_after: "reach Fwd st st' \<Longrightarrow> \<exists>cs. after st = cs @ after st'"
  by (auto simp: reach_def)

lemma rmatch_fwd_after: "st' \<in> set (rmatch ml r Fwd st) \<Longrightarrow> \<exists>cs. after st = cs @ after st'"
  using rmatch_reach reach_fwd_after by blast


lemma step_fwd_none: "\<forall>x \<in> set (after st). \<not> P x \<Longrightarrow> step P Fwd st = []"
  by (induction P Fwd st rule: step.induct) auto


lemma dead_Cls: "\<forall>x \<in> S. \<not> cls_ok neg as x \<Longrightarrow> dead ml (Cls neg as) S"
  by (auto simp: dead_def intro!: step_fwd_none)




lemma dead_Plus: "dead ml r S \<Longrightarrow> dead ml (Plus g r) S"
  by (simp add: dead_def)






lemma gscan_miss:
  "rmatch ml r Fwd (MState b a None) = [] \<Longrightarrow>
     gscan ml r b a = (case a of [] \<Rightarrow> [] | c # cs \<Rightarrow> Plain c # gscan ml r (c # b) cs)"
  by (subst gscan.simps) simp

lemma gscan_hit:
  "rmatch ml r Fwd (MState b a None) = e # es \<Longrightarrow>
     gscan ml r b a =
       Match (take (length a - length (after e)) a) (cap e) #
       (if length (after e) < length a then gscan ml r (before e) (after e)
        else (case a of [] \<Rightarrow> [] | c # cs \<Rightarrow> Plain c # gscan ml r (c # b) cs))"
  by (subst gscan.simps) simp

lemma gscan_Match:
  "(\<And>b a e es. rmatch ml r Fwd (MState b a None) = e # es \<Longrightarrow>
       P (take (length a - length (after e)) a)) \<Longrightarrow>
   Match m g \<in> set (gscan ml r b a) \<Longrightarrow> P m"
proof (induction ml r b a rule: gscan.induct)
  case (1 ml r b a)
  note hit = "1.prems"(1)
  show ?case
  proof (cases "rmatch ml r Fwd (MState b a None)")
    case Nil
    from "1.prems"(2) obtain c cs where "a = c # cs" "Match m g \<in> set (gscan ml r (c # b) cs)"
      unfolding gscan_miss [OF Nil] by (auto split: list.splits)
    with "1.IH"(1) [OF Nil] hit show ?thesis
      by blast
  next
    case (Cons e es)
    have here: "P (take (length a - length (after e)) a)"
      using hit Cons by blast
    from "1.prems"(2) consider
        "m = take (length a - length (after e)) a"
      | "length (after e) < length a" "Match m g \<in> set (gscan ml r (before e) (after e))"
      | c cs where "\<not> length (after e) < length a" "a = c # cs"
          "Match m g \<in> set (gscan ml r (c # b) cs)"
      unfolding gscan_hit [OF Cons] by (auto split: list.splits if_splits)
    then show ?thesis
    proof cases
      case 1
      with here show ?thesis by simp
    next
      case 2
      with "1.IH"(2) [OF Cons] hit show ?thesis by blast
    next
      case 3
      with "1.IH"(3) [OF Cons] hit show ?thesis by blast
    qed
  qed
qed

lemma build_total:
  "(\<And>m g. Match m g \<in> set chs \<Longrightarrow> \<exists>x. f m = Inr x) \<Longrightarrow> \<exists>t. build f chs = Inr t"
proof (induction f chs rule: build.induct)
  case (1 f)
  then show ?case by simp
next
  case (2 f c chs)
  then show ?case by fastforce
next
  case (3 f m g chs)
  from "3.prems" [of m g] obtain x where x: "f m = Inr x" by auto
  from "3.IH" [OF x] "3.prems" obtain t where "build f chs = Inr t" by auto
  with x show ?case by simp
qed


lemma split_on_nonempty: "split_on c s \<noteq> []"
  by (induction s) (auto split: list.splits)

lemma split_on_head: "x \<noteq> c \<Longrightarrow> \<exists>y ys. split_on c (x # xs) = (x # y) # ys"
  using split_on_nonempty [of c xs] by (cases "split_on c xs") auto

lemma trim_nonblank: "\<not> isWhiteSpace x \<Longrightarrow> trim (x # y) \<noteq> []"
  by (simp add: trim_def dropWhile_eq_Nil_conv dropWhile_append)

lemma tableToHtml_bar: "\<exists>h. tableToHtml (CHR ''|'' # t) = Inr h"
proof -
  obtain y ys where "split_on nl (CHR ''|'' # t) = (CHR ''|'' # y) # ys"
    using split_on_head [of "CHR ''|''" nl t] by auto
  moreover have "trim (CHR ''|'' # y) \<noteq> []"
    by (rule trim_nonblank) (simp add: isWhiteSpace_def)
  ultimately show ?thesis
    by (simp add: tableToHtml_def)
qed

lemma table_match_bar:
  assumes "rmatch ml tableRegex Fwd (MState b a None) = e # es"
  shows "\<exists>t. take (length a - length (after e)) a = CHR ''|'' # t"
proof -
  define R where "R = seqs [Plus True notnl, Ch CHR ''|'', Star True ws, Ch nl,
                Ch CHR ''|'', Plus True (Cls False [Lit CHR ''-'', Lit CHR '':'', Lit CHR ''|'']),
                Ch CHR ''|'', Plus True notnl, Ch CHR ''|'', Star True ws,
                Star True (seqs [Ch nl, Ch CHR ''|'', Plus True notnl, Ch CHR ''|'', Star True ws])]"
  have T: "tableRegex = Grp (Seq (Ch CHR ''|'') R)"
    by (simp add: tableRegex_def R_def)
  have "e \<in> set (rmatch ml (Grp (Seq (Ch CHR ''|'') R)) Fwd (MState b a None))"
    using assms T by simp
  then obtain e0 where e0: "e = capture Fwd (MState b a None) e0"
      "e0 \<in> set (concat (map (rmatch ml R Fwd) (step (\<lambda>x. x = CHR ''|'') Fwd (MState b a None))))"
    by auto
  then obtain a' where a: "a = CHR ''|'' # a'" "e0 \<in> set (rmatch ml R Fwd (MState (CHR ''|'' # b) a' None))"
    by (cases a) (auto split: if_splits)
  from rmatch_fwd_after [OF a(2)] obtain cs where "a' = cs @ after e0"
    by auto
  moreover have "after e = after e0"
    using e0(1) by (cases e0) simp
  ultimately show ?thesis
    using a(1) by simp
qed

lemma table_pass_total: "\<exists>s. replace_g_fn False tableRegex tableToHtml m = Inr s"
  unfolding replace_g_fn_def
proof (rule build_total)
  fix t g
  assume "Match t g \<in> set (gscan False tableRegex [] m)"
  then have "\<exists>u. t = CHR ''|'' # u"
    by (rule gscan_Match [rotated]) (rule table_match_bar)
  then show "\<exists>x. tableToHtml t = Inr x"
    using tableToHtml_bar by auto
qed

lemma list_pass_total: "\<exists>s. replace_g_fn ml r (listToHtml tag ir mr) m = Inr s"
  unfolding replace_g_fn_def by (rule build_total) (simp add: listToHtml_def)





section \<open>Patterns that cannot match\<close>

lemma reach_fwd_text: "reach Fwd st st' \<Longrightarrow> rev (before st') @ after st' = rev (before st) @ after st"
  by (auto simp: reach_def)

lemma rmatch_fwd_text:
  "st' \<in> set (rmatch ml r Fwd st) \<Longrightarrow> rev (before st') @ after st' = rev (before st) @ after st"
  using rmatch_reach reach_fwd_text by blast




lemma rmatch_Cls_fun: "rmatch ml (Cls n as) d = step (cls_ok n as) d"
  by (rule ext) simp

lemma rmatch_Ch_fun: "rmatch ml (Ch c) d = step (\<lambda>x. x = c) d"
  by (rule ext) simp


























section \<open>Patterns that match once\<close>










text \<open>
  With the \<open>m\<close> flag, \<open>^\<close> matches at the start of the subject and after a line
  terminator. A subject that starts with \<open><\<close> and has no line terminator gives the
  list patterns no place to start.
\<close>

lemma star_ws_lt:
  "iter (step (cls_ok False [Space]) Fwd) True Fwd (MState b (CHR ''<'' # t) g) = [MState b (CHR ''<'' # t) g]"
  by (subst iter.simps) (simp add: cls_ok_def isWhiteSpace_def)

lemma list_at_lt: "rmatch ml listRegex Fwd (MState b (CHR ''<'' # t) g) = []"
  by (simp add: listRegex_def rmatch_Cls_fun star_ws_lt cls_ok_def)

lemma ordered_at_lt: "rmatch ml orderedListRegex Fwd (MState b (CHR ''<'' # t) g) = []"
  by (simp add: orderedListRegex_def rmatch_Cls_fun star_ws_lt cls_ok_def isDigit_def)






lemma replace_g_head:
  assumes "rmatch ml r Fwd (MState [] (c # t) None) = []"
  shows "\<exists>u. replace_g ml r tmpl (c # t) = c # u"
  by (simp add: replace_g_def gscan_miss [OF assms])

lemma build_head: "build f (Plain c # chs) = Inr s \<Longrightarrow> \<exists>u. s = c # u"
  by (auto split: sum.splits)

lemma replace_g_fn_head:
  assumes "rmatch ml r Fwd (MState [] (c # t) None) = []" and "replace_g_fn ml r f (c # t) = Inr s"
  shows "\<exists>u. s = c # u"
  using assms(2) unfolding replace_g_fn_def gscan_miss [OF assms(1)]
  by (simp only: list.case) (rule build_head)

lemma italic_at_other: "c \<noteq> CHR ''*'' \<Longrightarrow> rmatch ml italicRegex Fwd (MState b (c # a) g) = []"
  by (auto simp: italicRegex_def)

text \<open>No pass touches a leading \<open><\<close> of the input.\<close>

lemma passes_leading_lt: "\<exists>u. passes (CHR ''<'' # t) = Inr (CHR ''<'' # u)"
proof -
  obtain s1 where s1: "replace_g_fn False tableRegex tableToHtml (CHR ''<'' # t) = Inr s1"
    using table_pass_total by blast
  then obtain u1 where u1: "s1 = CHR ''<'' # u1"
    by (rule replace_g_fn_head [rotated, THEN exE]) (simp_all add: tableRegex_def)
  obtain u2 where u2: "replace_g False codeBlockRegex ''<pre><code>$1</code></pre>'' (CHR ''<'' # u1) = CHR ''<'' # u2"
    using replace_g_head [of False codeBlockRegex "CHR ''<''" u1] by (auto simp: codeBlockRegex_def)
  obtain u3 where u3: "replace_g False inlineCodeRegex ''<code>$1</code>'' (CHR ''<'' # u2) = CHR ''<'' # u3"
    using replace_g_head [of False inlineCodeRegex "CHR ''<''" u2] by (auto simp: inlineCodeRegex_def)
  obtain u4 where u4: "replace_g False boldRegex ''<strong>$1</strong>'' (CHR ''<'' # u3) = CHR ''<'' # u4"
    using replace_g_head [of False boldRegex "CHR ''<''" u3] by (auto simp: boldRegex_def)
  obtain u5 where u5: "replace_g False italicRegex ''<em>$1</em>'' (CHR ''<'' # u4) = CHR ''<'' # u5"
    using replace_g_head [of False italicRegex "CHR ''<''" u4] by (auto simp: italic_at_other)
  obtain s6 where s6: "replace_g_fn True listRegex (listToHtml ''ul'' listItemRegex listMarkerRegex) (CHR ''<'' # u5) = Inr s6"
    using list_pass_total by blast
  then obtain u6 where u6: "s6 = CHR ''<'' # u6"
    by (rule replace_g_fn_head [rotated, THEN exE]) (simp_all add: list_at_lt)
  obtain s7 where s7: "replace_g_fn True orderedListRegex (listToHtml ''ol'' orderedItemRegex orderedMarkerRegex) (CHR ''<'' # u6) = Inr s7"
    using list_pass_total by blast
  then obtain u7 where u7: "s7 = CHR ''<'' # u7"
    by (rule replace_g_fn_head [rotated, THEN exE]) (simp_all add: ordered_at_lt)
  obtain u8 where u8: "replace_g False paragraphRegex ''</p><p>'' (CHR ''<'' # u7) = CHR ''<'' # u8"
    using replace_g_head [of False paragraphRegex "CHR ''<''" u7] by (auto simp: paragraphRegex_def)
  obtain u9 where u9: "replace_g False newlineRegex ''<br>'' (CHR ''<'' # u8) = CHR ''<'' # u9"
    using replace_g_head [of False newlineRegex "CHR ''<''" u8] by (auto simp: newlineRegex_def)
  have "passes (CHR ''<'' # t) = Inr (CHR ''<'' # u9)"
    unfolding passes_def using s1 u1 u2 u3 u4 u5 s6 u6 s7 u7 u8 u9
    by (simp only: Let_def sum.case)
  then show ?thesis ..
qed

lemma passes_empty: "passes [] = Inr []"
  by code_simp

section \<open>The claims\<close>

text \<open>
  C1: what the function returns for the three-line table with header \<open>| A | B |\<close>,
  separator \<open>|---|---|\<close> and data row \<open>| 1 | 2 |\<close>. The header has a third, empty cell,
  which comes from the closing \<open>|\<close> of the row; the body of the table is empty, and the
  data row follows the table as plain text. (In the table pattern the \<open>\s*\<close> after the
  separator row takes the line break, so that the group for the data rows, which starts
  with \<open>\n\<close>, never matches.)
\<close>

theorem C1_table_example:
  "formatMessage (Some (''| A | B |'' @ [nl] @ ''|---|---|'' @ [nl] @ ''| 1 | 2 |'')) =
     Inr (''<table class=\"table table-bordered table-dark table-sm\">'' @
          ''<thead><tr><th>A</th><th>B</th><th></th></tr></thead>'' @
          ''<tbody></tbody></table>'' @
          ''| 1 | 2 |'')"
  by code_simp


text \<open>
  C3: \<open>format(null)\<close> and \<open>format("")\<close> both return the empty string.
\<close>

theorem C3_null_and_empty:
  "formatMessage None = Inr [] \<and> formatMessage (Some []) = Inr []"
  by (simp add: formatMessage_def)




text \<open>
  C5: \<open>format("`x`")\<close> returns \<open><code>x</code>\<close>, and the fenced block of \<open>y\<close> between
  two triple backticks returns \<open><pre><code>y</code></pre>\<close>.
\<close>

theorem C5_code_examples:
  "formatMessage (Some ''`x`'') = Inr ''<code>x</code>'' \<and>
   formatMessage (Some ''```y```'') = Inr ''<pre><code>y</code></pre>''"
  by code_simp

text \<open>
  C6: \<open>format("**bold**")\<close> returns \<open><strong>bold</strong>\<close> and \<open>format("*italic*")\<close>
  returns \<open><em>italic</em>\<close>; in both inputs the marked text stands alone, next to no
  HTML.
\<close>

theorem C6_emphasis_examples:
  "formatMessage (Some ''**bold**'') = Inr ''<strong>bold</strong>'' \<and>
   formatMessage (Some ''*italic*'') = Inr ''<em>italic</em>''"
  by code_simp

text \<open>
  C7: the two lines \<open>- a\<close> and \<open>- b\<close> become one \<open><ul>\<close> element with exactly the two
  items \<open>a\<close> and \<open>b\<close>, not two lists.
\<close>

theorem C7_unordered_list_example:
  "formatMessage (Some (''- a'' @ [nl] @ ''- b'')) = Inr ''<ul><li>a</li><li>b</li></ul>''"
  by code_simp

text \<open>
  C8: the two lines \<open>1. a\<close> and \<open>2. b\<close> become one \<open><ol>\<close> element with exactly the two
  items \<open>a\<close> and \<open>b\<close>.
\<close>

theorem C8_ordered_list_example:
  "formatMessage (Some (''1. a'' @ [nl] @ ''2. b'')) = Inr ''<ol><li>a</li><li>b</li></ol>''"
  by code_simp




text \<open>
  C10: the last step looks at the first character only. Whenever the text that the
  passes produce starts with \<open><\<close>, the function returns that text as it is, without
  the paragraph tags.
\<close>

theorem C10_result_starting_with_lt:
  "passes m = Inr (CHR ''<'' # t) \<Longrightarrow> formatMessage (Some m) = Inr (CHR ''<'' # t)"
  by (cases m) (simp_all add: formatMessage_def passes_empty wrap_def startsWith_def)

text \<open>The input \<open><x\<close>, which no pass changes, is returned as \<open><x\<close>.\<close>

theorem C10_result_starting_with_lt_witness:
  "passes ''<x'' = Inr ''<x'' \<and> formatMessage (Some ''<x'') = Inr ''<x''"
proof -
  have p: "passes ''<x'' = Inr ''<x''" by code_simp
  show ?thesis using p C10_result_starting_with_lt [OF p] by simp
qed

text \<open>
  This holds for every input that itself starts with \<open><\<close>, whether or not what follows
  is HTML: no pass touches the leading \<open><\<close>, and the result is not wrapped.
\<close>

lemma leading_lt_kept:
  "\<exists>u. passes (CHR ''<'' # t) = Inr (CHR ''<'' # u) \<and>
       formatMessage (Some (CHR ''<'' # t)) = Inr (CHR ''<'' # u)"
proof -
  obtain u where "passes (CHR ''<'' # t) = Inr (CHR ''<'' # u)"
    using passes_leading_lt by blast
  then show ?thesis
    by (simp add: formatMessage_def wrap_def startsWith_def)
qed

end
